theory Spec2Isabelle
  imports Complex_Main "HOL-Library.Sublist" "HOL-Library.List_Lexorder" "HOL-Library.Char_ord"
begin

section \<open>Shared conventions\<close>

text \<open>
  Python floats are modelled as real numbers, so rounding, NaN and infinities are outside
  the model. An exception is a value of type \<open>error\<close>; a function that can raise
  returns \<open>error + 'a\<close> with \<open>Inl\<close> for the exception that leaves it.
\<close>

datatype error =
    ValueError string
  | KeyError string
  | TypeError string
  | AttributeError string
  | OtherError string

text \<open>The substring test of Python's \<open>in\<close> on strings.\<close>

fun contains :: "string \<Rightarrow> string \<Rightarrow> bool" where
  "contains sub [] = (sub = [])"
| "contains sub (c # cs) = (prefix sub (c # cs) \<or> contains sub cs)"

section \<open>Rasters\<close>

text \<open>
  An \<open>xr.DataArray\<close> of imagery: the shape tuple, the values in row-major order
  (bands, then rows, then columns), the attribute dictionary, and the pixel size and
  the affine transform that \<open>rio.resolution()\<close> and \<open>rio.transform()\<close> report.
\<close>

record data_array =
  shape :: "nat list"
  vals :: "real list"
  attrs :: "(string \<times> string) list"
  resolution :: "real \<times> real"
  transform :: "real list"

text \<open>The tensor handed to the model: shape and values, again row-major.\<close>

record tensor =
  t_shape :: "nat list"
  t_vals :: "real list"

definition clip :: "real \<Rightarrow> real \<Rightarrow> real \<Rightarrow> real" where
  "clip x lo hi = min (max x lo) hi"

section \<open>ml_service.py: preprocess_imagery\<close>

text \<open>
  \<open>attrs.get('collection', '')\<close> read as a string.
\<close>

definition collection_of :: "data_array \<Rightarrow> string" where
  "collection_of d = (case map_of (attrs d) ''collection'' of None \<Rightarrow> [] | Some c \<Rightarrow> c)"

definition normalize :: "data_array \<Rightarrow> real list \<Rightarrow> real list" where
  "normalize before_data xs =
     (if contains ''sentinel-2'' (collection_of before_data)
      then map (\<lambda>v. clip (v / 10000) 0 1) xs
      else map (\<lambda>v. clip ((v + 30) / 50) 0 1) xs)"

text \<open>
  The shape test comes first and raises \<open>ValueError\<close>; the handler around the body logs
  and re-raises, so the exception leaves the function. \<open>np.concatenate\<close> along axis 0
  appends the buffers and adds the leading extents (it refuses zero-dimensional arrays);
  \<open>unsqueeze(0)\<close> puts a batch axis of extent 1 in front.
\<close>

definition preprocess_imagery :: "data_array \<Rightarrow> data_array \<Rightarrow> error + tensor" where
  "preprocess_imagery before_data after_data =
     (if shape before_data \<noteq> shape after_data
      then Inl (ValueError ''Before and after images must have the same shape'')
      else
        let before_np = normalize before_data (vals before_data);
            after_np = normalize before_data (vals after_data)
        in (case shape before_data of
              [] \<Rightarrow> Inl (ValueError ''zero-dimensional arrays cannot be concatenated'')
            | b # rest \<Rightarrow>
                Inr \<lparr>t_shape = 1 # (b + b) # rest, t_vals = before_np @ after_np\<rparr>))"

section \<open>validation_service.py: validate_detections\<close>

text \<open>
  A detection is the dictionary that \<open>postprocess_results\<close> builds; its geometry is a
  GeoJSON-like value of type \<open>'j\<close>. Shapely geometries have type \<open>'g\<close>. The library
  calls are parameters of the model: \<open>shapely_shape\<close> is \<open>shapely.geometry.shape\<close>
  (it raises on a malformed value), \<open>intersects\<close> is the method of that name, and
  \<open>geo_interface\<close> is the \<open>__geo_interface__\<close> dictionary of a geometry.
\<close>

record 'j detection =
  geometry :: 'j
  confidence_score :: real
  area_sqm :: real
  change_type :: string
  flagged :: bool
  flag_reasons :: "string list"

datatype geo_value =
    Str string
  | Coords "(real \<times> real) list list"
  | Dict "(string \<times> string) list"

text \<open>
  \<open>zone.__geo_interface__['properties'].get('zone_type', 'protected_area')\<close>: the
  subscript raises \<open>KeyError\<close> when the dictionary has no such key, and \<open>.get\<close> needs
  a dictionary.
\<close>

definition zone_type :: "('g \<Rightarrow> (string \<times> geo_value) list) \<Rightarrow> 'g \<Rightarrow> error + string" where
  "zone_type geo_interface zone =
     (case map_of (geo_interface zone) ''properties'' of
        None \<Rightarrow> Inl (KeyError ''properties'')
      | Some (Dict props) \<Rightarrow>
          Inr (case map_of props ''zone_type'' of None \<Rightarrow> ''protected_area'' | Some t \<Rightarrow> t)
      | Some _ \<Rightarrow> Inl (AttributeError ''get''))"

text \<open>The loop that appends one reason per intersecting zone, in the order of the zones.\<close>

fun flag_reasons_for :: "('g \<Rightarrow> (string \<times> geo_value) list) \<Rightarrow> 'g list \<Rightarrow> error + string list" where
  "flag_reasons_for geo_interface [] = Inr []"
| "flag_reasons_for geo_interface (zone # zones) =
     (case zone_type geo_interface zone of
        Inl e \<Rightarrow> Inl e
      | Inr t \<Rightarrow>
          (case flag_reasons_for geo_interface zones of
             Inl e \<Rightarrow> Inl e
           | Inr rs \<Rightarrow> Inr ((''Intersects '' @ t) # rs)))"

text \<open>One pass of the loop over the detections: the copy with its two fields replaced.\<close>

definition validate_one ::
  "('j \<Rightarrow> error + 'g) \<Rightarrow> ('g \<Rightarrow> 'g \<Rightarrow> bool) \<Rightarrow> ('g \<Rightarrow> (string \<times> geo_value) list) \<Rightarrow>
   'g list \<Rightarrow> 'j detection \<Rightarrow> error + 'j detection" where
  "validate_one shapely_shape intersects geo_interface relevant_zones d =
     (case shapely_shape (geometry d) of
        Inl e \<Rightarrow> Inl e
      | Inr det_geom \<Rightarrow>
          let is_in_protected_zone = list_ex (\<lambda>zone. intersects det_geom zone) relevant_zones
          in if is_in_protected_zone
             then (case flag_reasons_for geo_interface
                          (filter (\<lambda>zone. intersects det_geom zone) relevant_zones) of
                     Inl e \<Rightarrow> Inl e
                   | Inr rs \<Rightarrow> Inr (d\<lparr>flagged := True, flag_reasons := rs\<rparr>))
             else Inr (d\<lparr>flagged := False, flag_reasons := []\<rparr>))"

fun validate_all ::
  "('j \<Rightarrow> error + 'g) \<Rightarrow> ('g \<Rightarrow> 'g \<Rightarrow> bool) \<Rightarrow> ('g \<Rightarrow> (string \<times> geo_value) list) \<Rightarrow>
   'g list \<Rightarrow> 'j detection list \<Rightarrow> error + 'j detection list" where
  "validate_all shapely_shape intersects geo_interface relevant_zones [] = Inr []"
| "validate_all shapely_shape intersects geo_interface relevant_zones (d # ds) =
     (case validate_one shapely_shape intersects geo_interface relevant_zones d of
        Inl e \<Rightarrow> Inl e
      | Inr d' \<Rightarrow>
          (case validate_all shapely_shape intersects geo_interface relevant_zones ds of
             Inl e \<Rightarrow> Inl e
           | Inr ds' \<Rightarrow> Inr (d' # ds')))"

text \<open>
  The body of the \<open>try\<close> block. \<open>protected_zones\<close> is the list the service holds
  (\<open>self.protected_zones\<close>): the polygons that \<open>_load_protected_zones\<close> built with
  \<open>shape(geom)\<close> from the geometry of each feature.
\<close>

definition validate_detections_body ::
  "('j \<Rightarrow> error + 'g) \<Rightarrow> ('g \<Rightarrow> 'g \<Rightarrow> bool) \<Rightarrow> ('g \<Rightarrow> (string \<times> geo_value) list) \<Rightarrow>
   'g list \<Rightarrow> 'j detection list \<Rightarrow> 'j \<Rightarrow> error + 'j detection list" where
  "validate_detections_body shapely_shape intersects geo_interface protected_zones detections aoi_geometry =
     (case shapely_shape aoi_geometry of
        Inl e \<Rightarrow> Inl e
      | Inr aoig \<Rightarrow>
          let relevant_zones = filter (\<lambda>zone. intersects zone aoig) protected_zones
          in if relevant_zones = [] then Inr detections
             else validate_all shapely_shape intersects geo_interface relevant_zones detections)"

text \<open>The handler: any exception of the body is logged and the input list is returned.\<close>

definition validate_detections ::
  "('j \<Rightarrow> error + 'g) \<Rightarrow> ('g \<Rightarrow> 'g \<Rightarrow> bool) \<Rightarrow> ('g \<Rightarrow> (string \<times> geo_value) list) \<Rightarrow>
   'g list \<Rightarrow> 'j detection list \<Rightarrow> 'j \<Rightarrow> 'j detection list" where
  "validate_detections shapely_shape intersects geo_interface protected_zones detections aoi_geometry =
     (case validate_detections_body shapely_shape intersects geo_interface protected_zones
             detections aoi_geometry of
        Inl e \<Rightarrow> detections
      | Inr validated_detections \<Rightarrow> validated_detections)"

text \<open>
  A small geometry to run the validator on: a geometry is the list of grid cells it
  covers, a GeoJSON value is such a list or a malformed value, two geometries intersect
  when they share a cell, and the interface dictionary has the two keys that Shapely
  gives every geometry, \<open>type\<close> and \<open>coordinates\<close>.
\<close>

datatype cell_json = Cells "nat list" | Malformed

definition cell_shape :: "cell_json \<Rightarrow> error + nat list" where
  "cell_shape j = (case j of Cells cs \<Rightarrow> Inr cs | Malformed \<Rightarrow> Inl (AttributeError ''lower''))"

definition cell_intersects :: "nat list \<Rightarrow> nat list \<Rightarrow> bool" where
  "cell_intersects a b = list_ex (\<lambda>x. x \<in> set b) a"

definition cell_geo_interface :: "nat list \<Rightarrow> (string \<times> geo_value) list" where
  "cell_geo_interface g =
     [(''type'', Str ''Polygon''), (''coordinates'', Coords [map (\<lambda>c. (real c, 0)) g])]"

section \<open>ml_service.py: postprocess_results\<close>

text \<open>A pixel is a (row, column) index; the change map is a two-dimensional array, a list of rows.\<close>

type_synonym pixel = "nat \<times> nat"

type_synonym change_map = "real list list"

text \<open>
  \<open>binary_mask = change_map > confidence_threshold\<close>: the pixels of the mask that are
  set, in raster order.
\<close>

definition mask_pixels :: "change_map \<Rightarrow> real \<Rightarrow> pixel list" where
  "mask_pixels change_map confidence_threshold =
     concat (map (\<lambda>r. map (\<lambda>c. (r, c))
                        (filter (\<lambda>c. change_map ! r ! c > confidence_threshold)
                                [0..<length (change_map ! r)]))
                 [0..<length change_map])"

text \<open>
  \<open>skimage.measure.label\<close> with its default connectivity, which for a two-dimensional
  image is the 8-neighbourhood. The model adds the set pixels one by one: a pixel joins the
  regions it touches into one (placed where the first of them stood), or starts a region
  of its own at the end, so regions stay in the order of their first pixel. The order of
  the pixels inside a region is not the raster order; area and mean do not depend on it.
\<close>

definition neighbours :: "pixel \<Rightarrow> pixel \<Rightarrow> bool" where
  "neighbours p q =
     (fst p \<le> fst q + 1 \<and> fst q \<le> fst p + 1 \<and> snd p \<le> snd q + 1 \<and> snd q \<le> snd p + 1)"

definition touches :: "pixel \<Rightarrow> pixel list \<Rightarrow> bool" where
  "touches p region = list_ex (neighbours p) region"

fun add_pixel :: "pixel \<Rightarrow> pixel list list \<Rightarrow> pixel list list" where
  "add_pixel p [] = [[p]]"
| "add_pixel p (region # regions) =
     (if touches p region
      then (region @ concat (filter (touches p) regions) @ [p]) #
           filter (\<lambda>r. \<not> touches p r) regions
      else region # add_pixel p regions)"

definition label :: "pixel list \<Rightarrow> pixel list list" where
  "label pixels = foldl (\<lambda>regions p. add_pixel p regions) [] pixels"

text \<open>
  \<open>regionprops\<close>: \<open>region.area\<close> is the number of pixels, and
  \<open>region.mean_intensity\<close> is \<open>np.mean\<close> of the change map values at the pixels of the
  region, taken in raster order. \<open>np.mean\<close> works in floating point; its order of
  summation and its rounding belong to the library, so the mean is a parameter of the
  model, \<open>np_mean\<close>.
\<close>

definition all_pixels :: "change_map \<Rightarrow> pixel list" where
  "all_pixels change_map =
     concat (map (\<lambda>r. map (\<lambda>c. (r, c)) [0..<length (change_map ! r)]) [0..<length change_map])"

definition region_values :: "change_map \<Rightarrow> pixel list \<Rightarrow> real list" where
  "region_values change_map region =
     map (\<lambda>p. change_map ! fst p ! snd p) (filter (\<lambda>p. p \<in> set region) (all_pixels change_map))"

definition mean_intensity :: "(real list \<Rightarrow> real) \<Rightarrow> change_map \<Rightarrow> pixel list \<Rightarrow> real" where
  "mean_intensity np_mean change_map region = np_mean (region_values change_map region)"

text \<open>\<open>mask = labeled_mask == region.label\<close>.\<close>

definition region_mask :: "change_map \<Rightarrow> pixel list \<Rightarrow> bool list list" where
  "region_mask change_map region =
     map (\<lambda>r. map (\<lambda>c. (r, c) \<in> set region) [0..<length (change_map ! r)])
         [0..<length change_map]"

text \<open>Python's \<open>max(..., key=...)\<close> on a non-empty list: the first element with the largest key.\<close>

fun first_max :: "('a \<Rightarrow> real) \<Rightarrow> 'a \<Rightarrow> 'a list \<Rightarrow> 'a" where
  "first_max key best [] = best"
| "first_max key best (x # xs) =
     (if key best < key x then first_max key x xs else first_max key best xs)"

text \<open>\<open>abs(resolution[0] * resolution[1])\<close>.\<close>

definition pixel_area :: "data_array \<Rightarrow> real" where
  "pixel_area before_data = \<bar>fst (resolution before_data) * snd (resolution before_data)\<bar>"

text \<open>
  The body of the loop over the regions: \<open>None\<close> stands for \<open>continue\<close>. The library
  calls are parameters: \<open>shapes\<close> is \<open>rasterio.features.shapes\<close> on the region mask and
  the transform, giving GeoJSON polygons, and \<open>ring_area\<close> is the area of the exterior
  ring of such a polygon.
\<close>

definition region_detection ::
  "(real list \<Rightarrow> real) \<Rightarrow> (bool list list \<Rightarrow> real list \<Rightarrow> 'j list) \<Rightarrow> ('j \<Rightarrow> real) \<Rightarrow>
   change_map \<Rightarrow> data_array \<Rightarrow> real \<Rightarrow> pixel list \<Rightarrow> 'j detection option" where
  "region_detection np_mean shapes ring_area change_map before_data min_area_sqm region =
     (let area = real (length region) * pixel_area before_data
      in if area < min_area_sqm then None
         else
           let score = mean_intensity np_mean change_map region;
               polygons = shapes (region_mask change_map region) (transform before_data)
           in (case polygons of
                 [] \<Rightarrow> None
               | poly # polys \<Rightarrow>
                   Some \<lparr>geometry = first_max ring_area poly polys,
                         confidence_score = score,
                         area_sqm = area,
                         change_type = (if score > 0.8 then ''new_construction'' else ''unknown''),
                         flagged = False,
                         flag_reasons = []\<rparr>))"

text \<open>
  The result dictionary, without the \<open>processed_at\<close> time stamp and the coordinates
  that wrap the change map for export.
\<close>

record 'j postprocess_result =
  result_change_map :: change_map
  detections :: "'j detection list"
  meta_confidence_threshold :: real
  meta_min_area_sqm :: real
  total_detections :: nat

definition postprocess_results ::
  "(real list \<Rightarrow> real) \<Rightarrow> (bool list list \<Rightarrow> real list \<Rightarrow> 'j list) \<Rightarrow> ('j \<Rightarrow> real) \<Rightarrow>
   change_map \<Rightarrow> data_array \<Rightarrow> real \<Rightarrow> real \<Rightarrow> 'j postprocess_result" where
  "postprocess_results np_mean shapes ring_area change_map before_data confidence_threshold
     min_area_sqm =
     (let regions = label (mask_pixels change_map confidence_threshold);
          dets = List.map_filter
                   (region_detection np_mean shapes ring_area change_map before_data min_area_sqm)
                   regions
      in \<lparr>result_change_map = change_map, detections = dets,
          meta_confidence_threshold = confidence_threshold,
          meta_min_area_sqm = min_area_sqm, total_detections = length dets\<rparr>)"

text \<open>
  A small vectoriser to run the extractor on: the polygon of a region mask is the list of
  its set pixels, and its area is their number.
\<close>

definition pixel_shapes :: "bool list list \<Rightarrow> real list \<Rightarrow> pixel list list" where
  "pixel_shapes region_image tr =
     filter (\<lambda>cells. cells \<noteq> [])
       [concat (map (\<lambda>r. map (\<lambda>c. (r, c)) (filter (\<lambda>c. region_image ! r ! c) [0..<length (region_image ! r)]))
                    [0..<length region_image])]"

definition pixel_ring_area :: "pixel list \<Rightarrow> real" where
  "pixel_ring_area cells = real (length cells)"

text \<open>A change map of one row, and a raster with ten-metre pixels.\<close>

definition strip_map :: change_map where
  "strip_map = [[9 / 10, 6 / 10, 9 / 10]]"

definition ten_metre :: data_array where
  "ten_metre = \<lparr>shape = [4, 1, 3], vals = replicate 12 0, attrs = [], resolution = (10, -10),
                transform = [10, 0, 0, 0, -10, 0]\<rparr>"

text \<open>
  A mean in IEEE-754 double precision, to run the extractor on: every sum and the final
  quotient are rounded to the nearest double, ties to the even significand (53 bits).
  Subnormal numbers and overflow are outside this model. The sums are taken from left to
  right; for a few equal values every order of summation gives the same result.
\<close>

definition pow2 :: "int \<Rightarrow> real" where
  "pow2 k = (if 0 \<le> k then 2 ^ nat k else 1 / 2 ^ nat (- k))"

primrec exponent_from :: "nat \<Rightarrow> real \<Rightarrow> int \<Rightarrow> int" where
  "exponent_from 0 a e = e"
| "exponent_from (Suc fuel) a e =
     (if 2 \<le> a then exponent_from fuel (a / 2) (e + 1)
      else if a < 1 then exponent_from fuel (a * 2) (e - 1)
      else e)"

definition round_half_even :: "real \<Rightarrow> int" where
  "round_half_even q =
     (let f = \<lfloor>q\<rfloor>; d = q - of_int f
      in if d < 1 / 2 then f else if 1 / 2 < d then f + 1 else if even f then f else f + 1)"

definition round_float64 :: "real \<Rightarrow> real" where
  "round_float64 x =
     (if x = 0 then 0
      else let ulp = pow2 (exponent_from 1100 \<bar>x\<bar> 0 - 52)
           in sgn x * of_int (round_half_even (\<bar>x\<bar> / ulp)) * ulp)"

definition float64_mean :: "real list \<Rightarrow> real" where
  "float64_mean xs =
     round_float64 (foldl (\<lambda>s x. round_float64 (s + x)) 0 xs / real (length xs))"

text \<open>
  Two neighbouring doubles: 0.0865 and the double just below it, and a change map of one
  row that holds the larger one three times.
\<close>

definition just_above :: real where
  "just_above = 3116490942140383 / 2 ^ 55"

definition tight_threshold :: real where
  "tight_threshold = 6232981884280765 / 2 ^ 56"

definition tight_map :: change_map where
  "tight_map = [[just_above, just_above, just_above]]"

text \<open>A change map of one row whose values are doubles well apart.\<close>

definition dyadic_map :: change_map where
  "dyadic_map = [[3 / 4, 5 / 8, 3 / 4]]"

section \<open>ml_service.py (backend): the fallback change map\<close>

text \<open>
  The global generator of \<open>np.random\<close>. Nothing seeds it, so its state is not an input of
  the pipeline; the model makes it an explicit argument: three streams of raw draws
  (integers, numbers in [0, 1), standard normal numbers) and the number of draws made.
\<close>

record np_random =
  int_draws :: "nat \<Rightarrow> nat"
  unit_draws :: "nat \<Rightarrow> real"
  normal_draws :: "nat \<Rightarrow> real"
  drawn :: nat

text \<open>\<open>np.random.randint(low, high)\<close>: an integer in [low, high); \<open>ValueError\<close> when the range is empty.\<close>

definition randint :: "int \<Rightarrow> int \<Rightarrow> np_random \<Rightarrow> error + (int \<times> np_random)" where
  "randint low high g =
     (if high \<le> low then Inl (ValueError ''low >= high'')
      else Inr (low + int (int_draws g (drawn g) mod nat (high - low)),
                g\<lparr>drawn := Suc (drawn g)\<rparr>))"

text \<open>\<open>np.random.uniform(low, high)\<close> and \<open>np.random.normal(loc, scale, (height, width))\<close>.\<close>

definition uniform :: "real \<Rightarrow> real \<Rightarrow> np_random \<Rightarrow> real \<times> np_random" where
  "uniform low high g =
     (low + (high - low) * unit_draws g (drawn g), g\<lparr>drawn := Suc (drawn g)\<rparr>)"

definition normal :: "real \<Rightarrow> real \<Rightarrow> nat \<Rightarrow> nat \<Rightarrow> np_random \<Rightarrow> change_map \<times> np_random" where
  "normal loc scale height width g =
     (map (\<lambda>r. map (\<lambda>c. loc + scale * normal_draws g (drawn g + r * width + c)) [0..<width])
          [0..<height],
      g\<lparr>drawn := drawn g + height * width\<rparr>)"

text \<open>\<open>change_map[y:y+size, x:x+size] = confidence\<close>.\<close>

definition assign_block :: "change_map \<Rightarrow> nat \<Rightarrow> nat \<Rightarrow> nat \<Rightarrow> real \<Rightarrow> change_map" where
  "assign_block change_map y x side v =
     map (\<lambda>r. map (\<lambda>c. if y \<le> r \<and> r < y + side \<and> x \<le> c \<and> c < x + side then v
                         else change_map ! r ! c)
                  [0..<length (change_map ! r)])
         [0..<length change_map]"

text \<open>The loop \<open>for i in range(num_changes)\<close>.\<close>

fun add_changes ::
  "nat \<Rightarrow> nat \<Rightarrow> nat \<Rightarrow> change_map \<Rightarrow> np_random \<Rightarrow> error + (change_map \<times> np_random)" where
  "add_changes 0 height width change_map g = Inr (change_map, g)"
| "add_changes (Suc n) height width change_map g =
     (case randint 10 51 g of
        Inl e \<Rightarrow> Inl e
      | Inr (side, g1) \<Rightarrow>
     (case randint 0 (int width - side) g1 of
        Inl e \<Rightarrow> Inl e
      | Inr (x, g2) \<Rightarrow>
     (case randint 0 (int height - side) g2 of
        Inl e \<Rightarrow> Inl e
      | Inr (y, g3) \<Rightarrow>
          let (confidence, g4) = uniform (6 / 10) (95 / 100) g3
          in add_changes n height width
               (assign_block change_map (nat y) (nat x) (nat side) confidence) g4)))"

text \<open>
  \<open>_simple_difference_detection\<close> of \<open>backend/app/services/ml_service.py\<close>: of the two
  rasters it reads the last two extents of the shape of the first and nothing else. The
  result is the change map and the generator state it leaves behind.
\<close>

definition simple_difference_detection ::
  "np_random \<Rightarrow> data_array \<Rightarrow> data_array \<Rightarrow> error + (change_map \<times> np_random)" where
  "simple_difference_detection g before_data after_data =
     (case rev (shape before_data) of
        width # height # _ \<Rightarrow>
          (case randint 1 4 g of
             Inl e \<Rightarrow> Inl e
           | Inr (num_changes, g1) \<Rightarrow>
          (case add_changes (nat num_changes) height width
                  (replicate height (replicate width 0)) g1 of
             Inl e \<Rightarrow> Inl e
           | Inr (change_map, g2) \<Rightarrow>
               let (noise, g3) = normal 0 (5 / 100) height width g2
               in Inr (map (\<lambda>(row, noise_row). map (\<lambda>(v, n). clip (v + n) 0 1) (zip row noise_row))
                           (zip change_map noise), g3)))
      | _ \<Rightarrow> Inl (ValueError ''not enough values to unpack''))"

text \<open>The change map alone, as \<open>run_change_detection\<close> receives it, and one of its pixels.\<close>

definition fallback_change_map :: "np_random \<Rightarrow> data_array \<Rightarrow> data_array \<Rightarrow> error + change_map" where
  "fallback_change_map g before_data after_data =
     (case simple_difference_detection g before_data after_data of
        Inl e \<Rightarrow> Inl e
      | Inr (change_map, g') \<Rightarrow> Inr change_map)"

text \<open>Two generator states and a raster of four bands of 11 by 11 pixels.\<close>

definition pixel_at :: "error + change_map \<Rightarrow> nat \<Rightarrow> nat \<Rightarrow> error + real" where
  "pixel_at result r c = (case result of Inl e \<Rightarrow> Inl e | Inr change_map \<Rightarrow> Inr (change_map ! r ! c))"

definition quiet_generator :: np_random where
  "quiet_generator =
     \<lparr>int_draws = (\<lambda>k. 0), unit_draws = (\<lambda>k. 0), normal_draws = (\<lambda>k. 0), drawn = 0\<rparr>"

definition other_generator :: np_random where
  "other_generator =
     \<lparr>int_draws = (\<lambda>k. 0), unit_draws = (\<lambda>k. 1 / 2), normal_draws = (\<lambda>k. 0), drawn = 0\<rparr>"

definition small_scene :: data_array where
  "small_scene =
     \<lparr>shape = [4, 11, 11], vals = replicate 484 (1 / 5), attrs = [], resolution = (10, -10),
      transform = [10, 0, 0, 0, -10, 0]\<rparr>"

section \<open>stac_service.py: search_imagery and get_best_imagery_pair\<close>

text \<open>
  A STAC item as the catalogue returns it, with the fields the service reads: the
  acquisition time already in ISO format (\<open>None\<close> when the item has none) and the
  \<open>eo:cloud_cover\<close> property (\<open>None\<close> when absent).
\<close>

record stac_item =
  item_id :: string
  collection_id :: string
  item_datetime :: "string option"
  eo_cloud_cover :: "real option"
  item_bbox :: "real list"
  asset_keys :: "string list"

text \<open>
  The keyword arguments of \<open>catalog.search\<close>. Dates are day numbers: the service formats
  them with \<open>%Y-%m-%d\<close>, which drops the time of day.
\<close>

record search_params =
  sp_bbox :: "real list"
  sp_datetime :: "int \<times> int"
  sp_collections :: "string list"
  sp_limit :: nat
  sp_cloud_cover_lt :: "real option"

text \<open>The simplified dictionary that \<open>search_imagery\<close> builds for each item.\<close>

record image_info =
  image_id :: string
  image_collection :: string
  image_datetime :: "string option"
  image_cloud_cover :: "real option"
  image_bbox :: "real list"
  image_assets :: "string list"
  image_item :: stac_item

definition item_info :: "stac_item \<Rightarrow> image_info" where
  "item_info item =
     \<lparr>image_id = item_id item, image_collection = collection_id item,
      image_datetime = item_datetime item, image_cloud_cover = eo_cloud_cover item,
      image_bbox = item_bbox item, image_assets = asset_keys item, image_item = item\<rparr>"

text \<open>
  \<open>list.sort(key=...)\<close>: stable, ascending. A key that is \<open>None\<close> cannot be compared,
  neither with a number or string nor with another \<open>None\<close>, and every element of a
  list of two or more takes part in a comparison, so such a sort raises \<open>TypeError\<close>.
\<close>

definition sort_by :: "('a \<Rightarrow> 'k::linorder option) \<Rightarrow> 'a list \<Rightarrow> error + 'a list" where
  "sort_by key xs =
     (if length xs < 2 then Inr xs
      else if list_ex (\<lambda>x. key x = None) xs
      then Inl (TypeError ''< not supported for NoneType'')
      else Inr (sort_key (\<lambda>x. the (key x)) xs))"

text \<open>
  \<open>catalog_search\<close> is the catalogue client (\<open>catalog.search(...).items()\<close>), a
  collaborator that may raise. \<open>"sentinel-2" in str(collections)\<close> holds exactly when
  one of the collection names has that substring.
\<close>

definition search_imagery ::
  "(search_params \<Rightarrow> error + stac_item list) \<Rightarrow> real list \<Rightarrow> int \<Rightarrow> int \<Rightarrow> string list \<Rightarrow>
   real \<Rightarrow> nat \<Rightarrow> error + image_info list" where
  "search_imagery catalog_search bbox date_from date_to collections cloud_cover_max max_items =
     (let optical = list_ex (contains ''sentinel-2'') collections;
          params = \<lparr>sp_bbox = bbox, sp_datetime = (date_from, date_to),
                    sp_collections = collections, sp_limit = max_items,
                    sp_cloud_cover_lt = (if optical then Some cloud_cover_max else None)\<rparr>
      in case catalog_search params of
           Inl e \<Rightarrow> Inl e
         | Inr items \<Rightarrow>
             let results = map item_info items
             in if optical then sort_by image_cloud_cover results
                else sort_by image_datetime results)"

text \<open>
  The optical pair first, the SAR pair next, \<open>(None, None, "none")\<close> last. An exception of
  a search is logged and re-raised. The SAR searches use the default cloud cover of 20.
\<close>

definition get_best_imagery_pair ::
  "(search_params \<Rightarrow> error + stac_item list) \<Rightarrow> real list \<Rightarrow> int \<Rightarrow> int \<Rightarrow> real \<Rightarrow>
   error + (image_info option \<times> image_info option \<times> string)" where
  "get_best_imagery_pair catalog_search bbox date_from date_to cloud_cover_max =
     (case search_imagery catalog_search bbox (date_from - 7) (date_from + 7)
             [''sentinel-2-l2a''] cloud_cover_max 5 of
        Inl e \<Rightarrow> Inl e
      | Inr before_search \<Rightarrow>
     (case search_imagery catalog_search bbox (date_to - 7) (date_to + 7)
             [''sentinel-2-l2a''] cloud_cover_max 5 of
        Inl e \<Rightarrow> Inl e
      | Inr after_search \<Rightarrow>
     (case (before_search, after_search) of
        (b # _, a # _) \<Rightarrow> Inr (Some b, Some a, ''sentinel-2'')
      | _ \<Rightarrow>
     (case search_imagery catalog_search bbox (date_from - 10) (date_from + 10)
             [''sentinel-1-grd''] 20 5 of
        Inl e \<Rightarrow> Inl e
      | Inr before_sar \<Rightarrow>
     (case search_imagery catalog_search bbox (date_to - 10) (date_to + 10)
             [''sentinel-1-grd''] 20 5 of
        Inl e \<Rightarrow> Inl e
      | Inr after_sar \<Rightarrow>
     (case (before_sar, after_sar) of
        (b # _, a # _) \<Rightarrow> Inr (Some b, Some a, ''sentinel-1'')
      | _ \<Rightarrow> Inr (None, None, ''none'')))))))"

text \<open>
  A catalogue held in memory, to run the search on: every item lies in every bounding box,
  the acquisition day of an item is given beside it, and a search returns the items of
  the requested collections inside the date range and under the cloud bound.
\<close>

definition memory_catalog :: "(int \<times> stac_item) list \<Rightarrow> search_params \<Rightarrow> error + stac_item list" where
  "memory_catalog entries params =
     Inr (map snd (filter (\<lambda>(day, item).
            fst (sp_datetime params) \<le> day \<and> day \<le> snd (sp_datetime params) \<and>
            collection_id item \<in> set (sp_collections params) \<and>
            (case sp_cloud_cover_lt params of
               None \<Rightarrow> True
             | Some bound \<Rightarrow> (case eo_cloud_cover item of None \<Rightarrow> False | Some c \<Rightarrow> c < bound)))
          entries))"

definition scene_a :: stac_item where
  "scene_a = \<lparr>item_id = ''S2A_20240105'', collection_id = ''sentinel-2-l2a'',
              item_datetime = Some ''2024-01-05T05:30:00+00:00'', eo_cloud_cover = Some 3,
              item_bbox = [72, 18, 73, 19], asset_keys = [''B04'', ''B03'', ''B02'', ''B08'']\<rparr>"

definition scene_b :: stac_item where
  "scene_b = \<lparr>item_id = ''S2B_20240301'', collection_id = ''sentinel-2-l2a'',
              item_datetime = Some ''2024-03-01T05:30:00+00:00'', eo_cloud_cover = Some 8,
              item_bbox = [72, 18, 73, 19], asset_keys = [''B04'', ''B03'', ''B02'', ''B08'']\<rparr>"

definition radar_a :: stac_item where
  "radar_a = \<lparr>item_id = ''S1A_20240104'', collection_id = ''sentinel-1-grd'',
              item_datetime = Some ''2024-01-04T00:41:00+00:00'', eo_cloud_cover = None,
              item_bbox = [72, 18, 73, 19], asset_keys = [''vv'', ''vh'']\<rparr>"

definition radar_b :: stac_item where
  "radar_b = \<lparr>item_id = ''S1A_20240303'', collection_id = ''sentinel-1-grd'',
              item_datetime = Some ''2024-03-03T00:41:00+00:00'', eo_cloud_cover = None,
              item_bbox = [72, 18, 73, 19], asset_keys = [''vv'', ''vh'']\<rparr>"

section \<open>job_service.py: job status and progress\<close>

text \<open>
  \<open>worker_tasks.py\<close> calls \<open>update_job_status\<close> with a job id, a status and keyword
  arguments (\<open>progress\<close>, \<open>error_message\<close>, \<open>model_version\<close>); the function of
  \<open>job_service.py\<close> takes a session, a job id and a \<open>JobStatusUpdate\<close>, so those calls
  do not reach the assignments below. The updates of this section are
  \<open>JobStatusUpdate\<close> values, as the status endpoint, \<open>cancel_job\<close> and
  \<open>save_detection_results\<close> pass them.
\<close>



















section \<open>Properties of preprocess_imagery\<close>

text \<open>
  C7. When the shapes of the before and after rasters differ (the shape tuple includes the
  band count), \<open>preprocess_imagery\<close> fails with the shape-mismatch \<open>ValueError\<close>; no
  tensor is returned.
\<close>

theorem preprocess_shape_mismatch:
  assumes "shape before_data \<noteq> shape after_data"
  shows "preprocess_imagery before_data after_data =
           Inl (ValueError ''Before and after images must have the same shape'')"
  using assms by (simp add: preprocess_imagery_def)

theorem preprocess_shape_mismatch_witness:
  "shape \<lparr>shape = [4, 2, 2], vals = replicate 16 0, attrs = [], resolution = (10, -10),
      transform = [10, 0, 0, 0, -10, 0]\<rparr>
     \<noteq> shape \<lparr>shape = [3, 2, 2], vals = replicate 12 0, attrs = [], resolution = (10, -10),
      transform = [10, 0, 0, 0, -10, 0]\<rparr>
   \<and> preprocess_imagery
       \<lparr>shape = [4, 2, 2], vals = replicate 16 0, attrs = [], resolution = (10, -10),
      transform = [10, 0, 0, 0, -10, 0]\<rparr>
       \<lparr>shape = [3, 2, 2], vals = replicate 12 0, attrs = [], resolution = (10, -10),
      transform = [10, 0, 0, 0, -10, 0]\<rparr>
     = Inl (ValueError ''Before and after images must have the same shape'')"
proof -
  have ne: "shape \<lparr>shape = [4, 2, 2], vals = replicate 16 0, attrs = [], resolution = (10, -10),
      transform = [10, 0, 0, 0, -10, 0]\<rparr>
     \<noteq> shape \<lparr>shape = [3, 2, 2], vals = replicate 12 0, attrs = [], resolution = (10, -10),
      transform = [10, 0, 0, 0, -10, 0]\<rparr>"
    by simp
  from preprocess_shape_mismatch [OF ne] ne show ?thesis by simp
qed

section \<open>Properties of validate_detections\<close>

lemma validate_one_frame:
  assumes "validate_one sh ints gi zs d = Inr d'"
  shows "d'\<lparr>flagged := False, flag_reasons := []\<rparr> = d\<lparr>flagged := False, flag_reasons := []\<rparr>"
  using assms
  by (auto simp: validate_one_def Let_def split: sum.splits if_splits)

lemma validate_all_frame:
  assumes "validate_all sh ints gi zs ds = Inr ds'"
  shows "length ds' = length ds \<and>
         map (\<lambda>d. d\<lparr>flagged := False, flag_reasons := []\<rparr>) ds' =
         map (\<lambda>d. d\<lparr>flagged := False, flag_reasons := []\<rparr>) ds"
  using assms
proof (induction ds arbitrary: ds')
  case Nil
  then show ?case by simp
next
  case (Cons d ds)
  from Cons.prems obtain d' rest where
    one: "validate_one sh ints gi zs d = Inr d'" and
    all: "validate_all sh ints gi zs ds = Inr rest" and
    out: "ds' = d' # rest"
    by (auto split: sum.splits)
  from Cons.IH [OF all] validate_one_frame [OF one] out show ?case by simp
qed

lemma validate_detections_cases:
  "validate_detections sh ints gi zones dets aoi = dets \<or>
   (\<exists>zs. validate_all sh ints gi zs dets =
           Inr (validate_detections sh ints gi zones dets aoi))"
  by (auto simp: validate_detections_def validate_detections_body_def Let_def split: sum.splits)

text \<open>
  C3. For every list of dets and every AOI geometry, \<open>validate_detections\<close> returns
  a list of the same length, in the same order, in which every detection keeps its
  geometry and every field other than \<open>flagged\<close> and \<open>flag_reasons\<close>.
\<close>

theorem validate_frame:
  "length (validate_detections sh ints gi zones dets aoi) = length dets \<and>
   map geometry (validate_detections sh ints gi zones dets aoi) = map geometry dets \<and>
   map (\<lambda>d. d\<lparr>flagged := False, flag_reasons := []\<rparr>)
       (validate_detections sh ints gi zones dets aoi) =
   map (\<lambda>d. d\<lparr>flagged := False, flag_reasons := []\<rparr>) dets"
proof -
  let ?out = "validate_detections sh ints gi zones dets aoi"
  let ?strip = "\<lambda>d::'a detection. d\<lparr>flagged := False, flag_reasons := []\<rparr>"
  have frame: "length ?out = length dets \<and> map ?strip ?out = map ?strip dets"
    using validate_detections_cases [of sh ints gi zones dets aoi]
    by (auto dest: validate_all_frame)
  then have "map (geometry \<circ> ?strip) ?out = map (geometry \<circ> ?strip) dets"
    by (metis map_map)
  then have "map geometry ?out = map geometry dets"
    by (simp add: comp_def)
  with frame show ?thesis by simp
qed

text \<open>
  C10. When the body of \<open>validate_detections\<close> raises (a malformed detection or AOI
  geometry, a missing key), the function returns the input list unchanged and raises
  nothing; a validation that succeeds with no relevant zone returns the very same list, so
  the result does not tell the two apart.
\<close>

theorem validate_swallows_exceptions:
  assumes "validate_detections_body sh ints gi zones dets aoi = Inl e"
    and "sh aoi' = Inr g"
  shows "validate_detections sh ints gi zones dets aoi = dets \<and>
         validate_detections_body sh ints gi [] dets aoi' = Inr dets \<and>
         validate_detections sh ints gi [] dets aoi' = dets"
  using assms by (simp add: validate_detections_def validate_detections_body_def)

theorem validate_swallows_exceptions_witness:
  "validate_detections_body cell_shape cell_intersects cell_geo_interface [[1, 2]]
     [\<lparr>geometry = Malformed, confidence_score = 9 / 10, area_sqm = 400,
       change_type = ''new_construction'', flagged = False, flag_reasons = []\<rparr>]
     (Cells [1, 2, 3, 4]) = Inl (AttributeError ''lower'') \<and>
   cell_shape (Cells [7]) = Inr [7] \<and>
   validate_detections cell_shape cell_intersects cell_geo_interface [[1, 2]]
     [\<lparr>geometry = Malformed, confidence_score = 9 / 10, area_sqm = 400,
       change_type = ''new_construction'', flagged = False, flag_reasons = []\<rparr>]
     (Cells [1, 2, 3, 4]) =
     [\<lparr>geometry = Malformed, confidence_score = 9 / 10, area_sqm = 400,
       change_type = ''new_construction'', flagged = False, flag_reasons = []\<rparr>] \<and>
   validate_detections_body cell_shape cell_intersects cell_geo_interface []
     [\<lparr>geometry = Malformed, confidence_score = 9 / 10, area_sqm = 400,
       change_type = ''new_construction'', flagged = False, flag_reasons = []\<rparr>]
     (Cells [7]) =
     Inr [\<lparr>geometry = Malformed, confidence_score = 9 / 10, area_sqm = 400,
       change_type = ''new_construction'', flagged = False, flag_reasons = []\<rparr>]"
proof -
  let ?d = "\<lparr>geometry = Malformed, confidence_score = 9 / 10, area_sqm = 400,
       change_type = ''new_construction'', flagged = False, flag_reasons = []\<rparr>"
  have fails: "validate_detections_body cell_shape cell_intersects cell_geo_interface [[1, 2]]
     [?d] (Cells [1, 2, 3, 4]) = Inl (AttributeError ''lower'')"
    by (simp add: validate_detections_body_def validate_one_def cell_shape_def
        cell_intersects_def)
  have aoi: "cell_shape (Cells [7]) = Inr [7]"
    by (simp add: cell_shape_def)
  from validate_swallows_exceptions [OF fails aoi] fails aoi show ?thesis by simp
qed

text \<open>
  C4. The claim is that a detection whose geometry intersects a relevant zone comes back
  with \<open>flagged = True\<close> and the reason \<open>Intersects <zone_type>\<close>. The zones are bare
  Shapely geometries, whose interface dictionary has no \<open>properties\<close> entry: the
  lookup of the zone type raises, the handler returns the input, and the intersecting
  detection comes back exactly as it went in.
\<close>

theorem validate_intersecting_detection_unchanged:
  assumes "sh aoi = Inr aoig" and "ints zone aoig"
    and "sh (geometry d) = Inr g" and "ints g zone"
    and "map_of (gi zone) ''properties'' = None"
  shows "validate_detections sh ints gi [zone] [d] aoi = [d]"
  using assms
  by (simp add: validate_detections_def validate_detections_body_def validate_one_def
      zone_type_def)

theorem validate_intersecting_detection_unchanged_witness:
  "cell_shape (Cells [1, 2, 3, 4]) = Inr [1, 2, 3, 4] \<and>
   cell_intersects [1, 2] [1, 2, 3, 4] \<and>
   cell_shape (geometry \<lparr>geometry = Cells [2, 3], confidence_score = 9 / 10, area_sqm = 400,
       change_type = ''new_construction'', flagged = False, flag_reasons = []\<rparr>) = Inr [2, 3] \<and>
   cell_intersects [2, 3] [1, 2] \<and>
   map_of (cell_geo_interface [1, 2]) ''properties'' = None \<and>
   validate_detections cell_shape cell_intersects cell_geo_interface [[1, 2]]
     [\<lparr>geometry = Cells [2, 3], confidence_score = 9 / 10, area_sqm = 400,
       change_type = ''new_construction'', flagged = False, flag_reasons = []\<rparr>]
     (Cells [1, 2, 3, 4]) =
     [\<lparr>geometry = Cells [2, 3], confidence_score = 9 / 10, area_sqm = 400,
       change_type = ''new_construction'', flagged = False, flag_reasons = []\<rparr>]"
proof -
  let ?d = "\<lparr>geometry = Cells [2, 3], confidence_score = 9 / 10, area_sqm = 400,
       change_type = ''new_construction'', flagged = False, flag_reasons = []\<rparr>"
  have h1: "cell_shape (Cells [1, 2, 3, 4]) = Inr [1, 2, 3, 4]"
    by (simp add: cell_shape_def)
  have h2: "cell_intersects [1, 2] [1, 2, 3, 4]"
    by (simp add: cell_intersects_def)
  have h3: "cell_shape (geometry ?d) = Inr [2, 3]"
    by (simp add: cell_shape_def)
  have h4: "cell_intersects [2, 3] [1, 2]"
    by (simp add: cell_intersects_def)
  have h5: "map_of (cell_geo_interface [1, 2]) ''properties'' = None"
    by (simp add: cell_geo_interface_def)
  from validate_intersecting_detection_unchanged
         [where sh = cell_shape and ints = cell_intersects and gi = cell_geo_interface
            and zone = "[1, 2]" and d = ?d and aoi = "Cells [1, 2, 3, 4]",
          OF h1 h2 h3 h4 h5] h1 h2 h3 h4 h5
  show ?thesis by simp
qed

section \<open>Properties of get_best_imagery_pair\<close>

text \<open>
  C8, as the claim states it: when the best before candidate and the best after candidate
  are the same acquisition, the result is \<open>(None, None, "none")\<close>. It is not: with one
  scene on day 5 and a job from day 3 to day 9 both windows hold that scene, and the
  function returns it twice as the optical pair.
\<close>

theorem same_acquisition_counterexample:
  "get_best_imagery_pair (memory_catalog [(5, scene_a)]) [72, 18, 73, 19] 3 9 20 =
     Inr (Some (item_info scene_a), Some (item_info scene_a), ''sentinel-2'') \<and>
   get_best_imagery_pair (memory_catalog [(5, scene_a)]) [72, 18, 73, 19] 3 9 20 \<noteq>
     Inr (None, None, ''none'')"
  by (simp add: get_best_imagery_pair_def search_imagery_def memory_catalog_def sort_by_def
      scene_a_def)

text \<open>
  C8, amended: \<open>get_best_imagery_pair\<close> compares no identifiers. When both optical
  searches return and both windows hold a candidate, the result is the first candidate of
  each window tagged \<open>sentinel-2\<close>, also when the two are the same acquisition. When an
  optical window is empty and both SAR searches return, the result is the first candidate
  of each SAR window tagged \<open>sentinel-1\<close> if both hold one, and \<open>(None, None, "none")\<close>
  otherwise.
\<close>

theorem best_pair_by_window_contents:
  assumes "search_imagery cat bbox (date_from - 7) (date_from + 7)
             [''sentinel-2-l2a''] cloud_cover_max 5 = Inr before_search"
    and "search_imagery cat bbox (date_to - 7) (date_to + 7)
             [''sentinel-2-l2a''] cloud_cover_max 5 = Inr after_search"
  shows "(before_search \<noteq> [] \<and> after_search \<noteq> [] \<longrightarrow>
            get_best_imagery_pair cat bbox date_from date_to cloud_cover_max =
              Inr (Some (hd before_search), Some (hd after_search), ''sentinel-2'')) \<and>
         (before_search = [] \<or> after_search = [] \<longrightarrow>
            (\<forall>before_sar after_sar.
               search_imagery cat bbox (date_from - 10) (date_from + 10)
                 [''sentinel-1-grd''] 20 5 = Inr before_sar \<longrightarrow>
               search_imagery cat bbox (date_to - 10) (date_to + 10)
                 [''sentinel-1-grd''] 20 5 = Inr after_sar \<longrightarrow>
               get_best_imagery_pair cat bbox date_from date_to cloud_cover_max =
                 (if before_sar \<noteq> [] \<and> after_sar \<noteq> []
                  then Inr (Some (hd before_sar), Some (hd after_sar), ''sentinel-1'')
                  else Inr (None, None, ''none''))))"
proof (intro conjI impI allI)
  assume "before_search \<noteq> [] \<and> after_search \<noteq> []"
  then obtain b bs a as where "before_search = b # bs" "after_search = a # as"
    by (cases before_search; cases after_search) auto
  with assms
  show "get_best_imagery_pair cat bbox date_from date_to cloud_cover_max =
          Inr (Some (hd before_search), Some (hd after_search), ''sentinel-2'')"
    by (simp add: get_best_imagery_pair_def)
next
  fix before_sar after_sar
  assume empty: "before_search = [] \<or> after_search = []"
    and sar: "search_imagery cat bbox (date_from - 10) (date_from + 10)
                [''sentinel-1-grd''] 20 5 = Inr before_sar"
      "search_imagery cat bbox (date_to - 10) (date_to + 10)
                [''sentinel-1-grd''] 20 5 = Inr after_sar"
  show "get_best_imagery_pair cat bbox date_from date_to cloud_cover_max =
          (if before_sar \<noteq> [] \<and> after_sar \<noteq> []
           then Inr (Some (hd before_sar), Some (hd after_sar), ''sentinel-1'')
           else Inr (None, None, ''none''))"
    using assms sar empty
    by (cases before_search; cases after_search; cases before_sar; cases after_sar)
       (simp_all add: get_best_imagery_pair_def)
qed

theorem best_pair_by_window_contents_witness:
  "get_best_imagery_pair (memory_catalog [(5, scene_a), (61, scene_b)]) [72, 18, 73, 19] 5 60 20 =
     Inr (Some (item_info scene_a), Some (item_info scene_b), ''sentinel-2'') \<and>
   get_best_imagery_pair (memory_catalog [(4, radar_a), (63, radar_b)]) [72, 18, 73, 19] 5 60 20 =
     Inr (Some (item_info radar_a), Some (item_info radar_b), ''sentinel-1'') \<and>
   get_best_imagery_pair (memory_catalog [(4, radar_a)]) [72, 18, 73, 19] 5 60 20 =
     Inr (None, None, ''none'')"
proof -
  let ?box = "[72, 18, 73, 19] :: real list"
  let ?optical = "memory_catalog [(5, scene_a), (61, scene_b)]"
  let ?radar = "memory_catalog [(4, radar_a), (63, radar_b)]"
  let ?lone = "memory_catalog [(4, radar_a)]"
  have o1: "search_imagery ?optical ?box (5 - 7) (5 + 7) [''sentinel-2-l2a''] 20 5
              = Inr [item_info scene_a]"
    and o2: "search_imagery ?optical ?box (60 - 7) (60 + 7) [''sentinel-2-l2a''] 20 5
              = Inr [item_info scene_b]"
    by (simp_all add: search_imagery_def memory_catalog_def sort_by_def scene_a_def scene_b_def)
  have r1: "search_imagery ?radar ?box (5 - 7) (5 + 7) [''sentinel-2-l2a''] 20 5 = Inr []"
    and r2: "search_imagery ?radar ?box (60 - 7) (60 + 7) [''sentinel-2-l2a''] 20 5 = Inr []"
    and r3: "search_imagery ?radar ?box (5 - 10) (5 + 10) [''sentinel-1-grd''] 20 5
              = Inr [item_info radar_a]"
    and r4: "search_imagery ?radar ?box (60 - 10) (60 + 10) [''sentinel-1-grd''] 20 5
              = Inr [item_info radar_b]"
    by (simp_all add: search_imagery_def memory_catalog_def sort_by_def radar_a_def radar_b_def)
  have l1: "search_imagery ?lone ?box (5 - 7) (5 + 7) [''sentinel-2-l2a''] 20 5 = Inr []"
    and l2: "search_imagery ?lone ?box (60 - 7) (60 + 7) [''sentinel-2-l2a''] 20 5 = Inr []"
    and l3: "search_imagery ?lone ?box (5 - 10) (5 + 10) [''sentinel-1-grd''] 20 5
              = Inr [item_info radar_a]"
    and l4: "search_imagery ?lone ?box (60 - 10) (60 + 10) [''sentinel-1-grd''] 20 5 = Inr []"
    by (simp_all add: search_imagery_def memory_catalog_def sort_by_def radar_a_def)
  have first: "get_best_imagery_pair ?optical ?box 5 60 20 =
      Inr (Some (item_info scene_a), Some (item_info scene_b), ''sentinel-2'')"
    using best_pair_by_window_contents [OF o1 o2] by simp
  have second: "get_best_imagery_pair ?radar ?box 5 60 20 =
      Inr (Some (item_info radar_a), Some (item_info radar_b), ''sentinel-1'')"
    using best_pair_by_window_contents [OF r1 r2] r3 r4 by simp
  have third: "get_best_imagery_pair ?lone ?box 5 60 20 = Inr (None, None, ''none'')"
    using best_pair_by_window_contents [OF l1 l2] l3 l4 by simp
  from conjI [OF first conjI [OF second third]] show ?thesis .
qed

section \<open>Properties of the job status updates\<close>









section \<open>Properties of postprocess_results\<close>

lemma mask_pixels_above:
  assumes "p \<in> set (mask_pixels change_map t)"
  shows "t < change_map ! fst p ! snd p"
  using assms by (auto simp: mask_pixels_def)

lemma add_pixel_pixels:
  "\<Union> (set ` set (add_pixel p regions)) = insert p (\<Union> (set ` set regions))"
  by (induction regions) auto

lemma add_pixel_nonempty:
  assumes "[] \<notin> set regions"
  shows "[] \<notin> set (add_pixel p regions)"
  using assms by (induction regions) auto

lemma foldl_add_pixel:
  assumes "[] \<notin> set regions"
  shows "[] \<notin> set (foldl (\<lambda>regions p. add_pixel p regions) regions pixels) \<and>
         \<Union> (set ` set (foldl (\<lambda>regions p. add_pixel p regions) regions pixels)) =
         \<Union> (set ` set regions) \<union> set pixels"
  using assms
proof (induction pixels arbitrary: regions)
  case Nil
  then show ?case by simp
next
  case (Cons p pixels)
  from Cons.IH [OF add_pixel_nonempty [OF Cons.prems, of p]] show ?case
    by (simp add: add_pixel_pixels)
qed

lemma label_regions:
  assumes "region \<in> set (label pixels)"
  shows "region \<noteq> [] \<and> set region \<subseteq> set pixels"
proof -
  have "[] \<notin> set (label pixels)" and "\<Union> (set ` set (label pixels)) = set pixels"
    using foldl_add_pixel [of "[]" pixels] by (simp_all add: label_def)
  with assms show ?thesis by auto
qed

lemma mask_pixels_in_all: "set (mask_pixels change_map t) \<subseteq> set (all_pixels change_map)"
  by (auto simp: mask_pixels_def all_pixels_def)

lemma region_values_above:
  assumes "region \<in> set (label (mask_pixels change_map t))"
  shows "region_values change_map region \<noteq> [] \<and>
         (\<forall>v \<in> set (region_values change_map region). t < v)"
proof -
  let ?kept = "filter (\<lambda>p. p \<in> set region) (all_pixels change_map)"
  from label_regions [OF assms] have ne: "region \<noteq> []"
    and sub: "set region \<subseteq> set (mask_pixels change_map t)" by simp_all
  from sub mask_pixels_in_all have "set region \<subseteq> set (all_pixels change_map)" by blast
  then have kept: "set ?kept = set region" by auto
  from ne have "set region \<noteq> {}" by simp
  with kept have "?kept \<noteq> []" by (metis set_empty)
  moreover have "t < change_map ! fst p ! snd p" if "p \<in> set ?kept" for p
  proof -
    from that kept have "p \<in> set region" by simp
    with sub have "p \<in> set (mask_pixels change_map t)" by blast
    then show ?thesis by (rule mask_pixels_above)
  qed
  ultimately show ?thesis by (auto simp: region_values_def)
qed

lemma region_detection_Some:
  assumes "region_detection np_mean shapes ring_area change_map before_data min_area_sqm region
             = Some d"
  shows "area_sqm d = real (length region) * pixel_area before_data \<and>
         min_area_sqm \<le> area_sqm d \<and>
         confidence_score d = np_mean (region_values change_map region)"
  using assms
  by (auto simp: region_detection_def mean_intensity_def Let_def split: if_splits list.splits)

lemma detections_from_regions:
  assumes "d \<in> set (detections
             (postprocess_results np_mean shapes ring_area change_map before_data t m))"
  shows "\<exists>region \<in> set (label (mask_pixels change_map t)).
           region_detection np_mean shapes ring_area change_map before_data m region = Some d"
  using assms
  by (auto simp: postprocess_results_def Let_def List.map_filter_def)

text \<open>
  C6. Every detection that \<open>postprocess_results\<close> returns has an area of at least
  \<open>min_area_sqm\<close>, and a region whose pixel count times pixel area is below
  \<open>min_area_sqm\<close> yields no detection.
\<close>

theorem detections_reach_min_area:
  "(\<forall>d \<in> set (detections
        (postprocess_results np_mean shapes ring_area change_map before_data t m)).
      m \<le> area_sqm d) \<and>
   (\<forall>region. real (length region) * pixel_area before_data < m \<longrightarrow>
      region_detection np_mean shapes ring_area change_map before_data m region = None)"
proof (intro conjI ballI allI impI)
  fix d
  assume "d \<in> set (detections
            (postprocess_results np_mean shapes ring_area change_map before_data t m))"
  then show "m \<le> area_sqm d"
    using detections_from_regions region_detection_Some by blast
next
  fix region :: "pixel list"
  assume "real (length region) * pixel_area before_data < m"
  then show "region_detection np_mean shapes ring_area change_map before_data m region = None"
    by (simp add: region_detection_def)
qed

text \<open>
  C9, amended: the confidence score of every detection that \<open>postprocess_results\<close>
  returns is the mean that the library computes over the values of one labelled region;
  the region is not empty and each of its values is strictly above the confidence
  threshold. The score is strictly above the threshold whenever that computed mean is not
  below the smallest of the values.
\<close>

theorem confidence_is_mean_above_threshold:
  "\<forall>d \<in> set (detections
       (postprocess_results np_mean shapes ring_area change_map before_data t m)).
     \<exists>region \<in> set (label (mask_pixels change_map t)).
       region_values change_map region \<noteq> [] \<and>
       (\<forall>v \<in> set (region_values change_map region). t < v) \<and>
       confidence_score d = np_mean (region_values change_map region) \<and>
       (Min (set (region_values change_map region)) \<le> np_mean (region_values change_map region)
          \<longrightarrow> t < confidence_score d)"
proof
  fix d
  assume "d \<in> set (detections
            (postprocess_results np_mean shapes ring_area change_map before_data t m))"
  then obtain region where
    r: "region \<in> set (label (mask_pixels change_map t))" and
    d: "region_detection np_mean shapes ring_area change_map before_data m region = Some d"
    using detections_from_regions by blast
  let ?vs = "region_values change_map region"
  from region_values_above [OF r] have ne: "?vs \<noteq> []" and above: "\<forall>v \<in> set ?vs. t < v"
    by simp_all
  from region_detection_Some [OF d] have score: "confidence_score d = np_mean ?vs" by simp
  have "t < Min (set ?vs)" using ne above by simp
  then have "Min (set ?vs) \<le> np_mean ?vs \<longrightarrow> t < confidence_score d"
    using score by simp
  with r ne above score
  show "\<exists>region \<in> set (label (mask_pixels change_map t)).
       region_values change_map region \<noteq> [] \<and>
       (\<forall>v \<in> set (region_values change_map region). t < v) \<and>
       confidence_score d = np_mean (region_values change_map region) \<and>
       (Min (set (region_values change_map region)) \<le> np_mean (region_values change_map region)
          \<longrightarrow> t < confidence_score d)"
    by blast
qed

text \<open>
  Adjacency inside a set of pixels, and what it means for a region to be connected: any
  two of its pixels are linked by a chain of neighbours inside the region.
\<close>

definition adjacency :: "pixel set \<Rightarrow> (pixel \<times> pixel) set" where
  "adjacency S = {(a, b). a \<in> S \<and> b \<in> S \<and> neighbours a b}"


definition connected_region :: "pixel set \<Rightarrow> bool" where
  "connected_region S \<longleftrightarrow> (\<forall>a \<in> S. \<forall>b \<in> S. (a, b) \<in> (adjacency S)\<^sup>*)"


lemma neighbours_refl: "neighbours p p"
  by (simp add: neighbours_def)


lemma neighbours_sym: "neighbours p q \<Longrightarrow> neighbours q p"
  by (simp add: neighbours_def)


lemma adjacency_mono: "S \<subseteq> T \<Longrightarrow> adjacency S \<subseteq> adjacency T"
  by (auto simp: adjacency_def)


lemma adjacency_sym: "sym (adjacency S)"
  by (auto simp: adjacency_def sym_def neighbours_sym)


lemma touches_iff: "touches p region \<longleftrightarrow> (\<exists>q \<in> set region. neighbours p q)"
  by (simp add: touches_def list_ex_iff)


text \<open>What one step of the labelling does to the set of regions.\<close>


lemma add_pixel_regions:
  "\<exists>merged. set merged = insert p (\<Union> (set ` {r \<in> set regions. touches p r})) \<and>
            set (add_pixel p regions) = insert merged {r \<in> set regions. \<not> touches p r}"
proof (induction regions)
  case Nil
  show ?case by (rule exI [of _ "[p]"]) simp
next
  case (Cons region regions)
  show ?case
  proof (cases "touches p region")
    case True
    show ?thesis
      by (rule exI [of _ "region @ concat (filter (touches p) regions) @ [p]"])
         (use True in auto)
  next
    case False
    from Cons.IH obtain merged where
      m: "set merged = insert p (\<Union> (set ` {r \<in> set regions. touches p r}))"
         "set (add_pixel p regions) = insert merged {r \<in> set regions. \<not> touches p r}"
      by blast
    show ?thesis
      by (rule exI [of _ merged]) (use False m in auto)
  qed
qed


lemma connected_merge:
  assumes conn: "\<forall>r \<in> R. connected_region (set r)"
    and touch: "\<forall>r \<in> R. touches p r"
    and M: "M = insert p (\<Union> (set ` R))"
  shows "connected_region M"
proof -
  have to_p: "(a, p) \<in> (adjacency M)\<^sup>*" if "a \<in> M" for a
  proof (cases "a = p")
    case True
    then show ?thesis by simp
  next
    case False
    with that M obtain r where r: "r \<in> R" "a \<in> set r" by auto
    with touch obtain x where x: "x \<in> set r" "neighbours p x" by (auto simp: touches_iff)
    have sub: "set r \<subseteq> M" using r M by auto
    have "(a, x) \<in> (adjacency (set r))\<^sup>*"
      using conn r x unfolding connected_region_def by blast
    then have "(a, x) \<in> (adjacency M)\<^sup>*"
      using rtrancl_mono [OF adjacency_mono [OF sub]] by blast
    moreover have "(x, p) \<in> adjacency M"
      using x sub M by (auto simp: adjacency_def neighbours_sym)
    ultimately show ?thesis by (rule rtrancl_into_rtrancl)
  qed
  have from_p: "(p, b) \<in> (adjacency M)\<^sup>*" if "b \<in> M" for b
    using to_p [OF that] sym_rtrancl [OF adjacency_sym, of M] by (rule symD [rotated])
  show ?thesis
    unfolding connected_region_def
  proof (intro ballI)
    fix a b
    assume "a \<in> M" "b \<in> M"
    then have "(a, p) \<in> (adjacency M)\<^sup>*" "(p, b) \<in> (adjacency M)\<^sup>*"
      using to_p from_p by blast+
    then show "(a, b) \<in> (adjacency M)\<^sup>*" by (rule rtrancl_trans)
  qed
qed


text \<open>
  The invariant of the labelling: every region is connected, two regions that share a
  pixel are the same, and two neighbouring pixels lie in one region.
\<close>

definition well_labelled :: "pixel list list \<Rightarrow> bool" where
  "well_labelled regions \<longleftrightarrow>
     (\<forall>r \<in> set regions. connected_region (set r)) \<and>
     (\<forall>r \<in> set regions. \<forall>r' \<in> set regions. set r \<inter> set r' \<noteq> {} \<longrightarrow> r = r') \<and>
     (\<forall>a \<in> \<Union> (set ` set regions). \<forall>b \<in> \<Union> (set ` set regions).
        neighbours a b \<longrightarrow> (\<exists>r \<in> set regions. a \<in> set r \<and> b \<in> set r))"


lemma well_labelled_add_pixel:
  assumes "well_labelled regions"
  shows "well_labelled (add_pixel p regions)"
proof -
  let ?T = "{r \<in> set regions. touches p r}"
  let ?N = "{r \<in> set regions. \<not> touches p r}"
  from add_pixel_regions [of p regions] obtain merged where
    m: "set merged = insert p (\<Union> (set ` ?T))" and
    s: "set (add_pixel p regions) = insert merged ?N"
    by blast
  have old1: "\<forall>r \<in> set regions. connected_region (set r)"
    and old2: "\<forall>r \<in> set regions. \<forall>r' \<in> set regions. set r \<inter> set r' \<noteq> {} \<longrightarrow> r = r'"
    and old3: "\<forall>a \<in> \<Union> (set ` set regions). \<forall>b \<in> \<Union> (set ` set regions).
        neighbours a b \<longrightarrow> (\<exists>r \<in> set regions. a \<in> set r \<and> b \<in> set r)"
    using assms unfolding well_labelled_def by blast+
  have mem: "r = merged \<or> (r \<in> set regions \<and> \<not> touches p r)"
    if "r \<in> set (add_pixel p regions)" for r
    using that unfolding s by blast
  have merged_in: "merged \<in> set (add_pixel p regions)"
    unfolding s by blast
  have kept_in: "r \<in> set (add_pixel p regions)" if "r \<in> set regions" "\<not> touches p r" for r
    using that unfolding s by blast
  have cm: "connected_region (set merged)"
  proof (rule connected_merge [where R = ?T and p = p])
    show "\<forall>r \<in> ?T. connected_region (set r)" using old1 by blast
    show "\<forall>r \<in> ?T. touches p r" by blast
    show "set merged = insert p (\<Union> (set ` ?T))" by (rule m)
  qed
  have in_merged: "x \<in> set merged" if "r \<in> set regions" "touches p r" "x \<in> set r" for x r
    using that unfolding m by blast
  have p_merged: "p \<in> set merged" unfolding m by blast
  have merged_cases: "x = p \<or> (\<exists>r \<in> set regions. touches p r \<and> x \<in> set r)"
    if "x \<in> set merged" for x
    using that unfolding m by blast
  have apart: "set merged \<inter> set r = {}" if r: "r \<in> set regions" "\<not> touches p r" for r
  proof (rule ccontr)
    assume "set merged \<inter> set r \<noteq> {}"
    then obtain x where x: "x \<in> set merged" "x \<in> set r" by blast
    have "x \<noteq> p" using x(2) r(2) neighbours_refl unfolding touches_iff by blast
    with merged_cases [OF x(1)] obtain r' where
      r': "r' \<in> set regions" "touches p r'" "x \<in> set r'" by blast
    have "set r' \<inter> set r \<noteq> {}" using r'(3) x(2) by blast
    with old2 r'(1) r(1) have "r' = r" by blast
    with r'(2) r(2) show False by simp
  qed
  have c1: "connected_region (set r)" if "r \<in> set (add_pixel p regions)" for r
    using mem [OF that] cm old1 by blast
  have c2: "r = r'" if rr: "r \<in> set (add_pixel p regions)" "r' \<in> set (add_pixel p regions)"
      "set r \<inter> set r' \<noteq> {}" for r r'
  proof -
    consider "r = merged" "r' = merged"
      | "r = merged" "r' \<in> set regions" "\<not> touches p r'"
      | "r' = merged" "r \<in> set regions" "\<not> touches p r"
      | "r \<in> set regions" "r' \<in> set regions"
      using mem [OF rr(1)] mem [OF rr(2)] by blast
    then show ?thesis
    proof cases
      case 1
      then show ?thesis by simp
    next
      case 2
      with apart [of r'] rr(3) show ?thesis by simp
    next
      case 3
      from apart [OF 3(2,3)] have "set r \<inter> set merged = {}" by blast
      with 3(1) rr(3) show ?thesis by simp
    next
      case 4
      with old2 rr(3) show ?thesis by blast
    qed
  qed
  have cover: "x = p \<or> (\<exists>r \<in> set regions. x \<in> set r)"
    if "x \<in> \<Union> (set ` set (add_pixel p regions))" for x
  proof -
    from that have "x \<in> insert p (\<Union> (set ` set regions))"
      by (simp only: add_pixel_pixels)
    then show ?thesis by blast
  qed
  have near_p: "x \<in> set merged"
    if "neighbours p x" "x \<in> \<Union> (set ` set (add_pixel p regions))" for x
  proof (cases "x = p")
    case True
    with p_merged show ?thesis by simp
  next
    case False
    with cover [OF that(2)] obtain r where r: "r \<in> set regions" "x \<in> set r" by blast
    with that(1) have "touches p r" unfolding touches_iff by blast
    from in_merged [OF r(1) this r(2)] show ?thesis .
  qed
  have c3: "\<exists>r \<in> set (add_pixel p regions). a \<in> set r \<and> b \<in> set r"
    if a: "a \<in> \<Union> (set ` set (add_pixel p regions))"
      and b: "b \<in> \<Union> (set ` set (add_pixel p regions))" and n: "neighbours a b" for a b
  proof (cases "a = p \<or> b = p")
    case True
    have "a \<in> set merged \<and> b \<in> set merged"
    proof (cases "a = p")
      case True
      with n have "neighbours p b" by simp
      from near_p [OF this b] True p_merged show ?thesis by simp
    next
      case False
      with \<open>a = p \<or> b = p\<close> have bp: "b = p" by simp
      with n have "neighbours p a" by (simp add: neighbours_sym)
      from near_p [OF this a] bp p_merged show ?thesis by simp
    qed
    with merged_in show ?thesis by blast
  next
    case False
    with cover [OF a] cover [OF b]
    have "a \<in> \<Union> (set ` set regions)" "b \<in> \<Union> (set ` set regions)" by blast+
    with old3 n obtain r where r: "r \<in> set regions" "a \<in> set r" "b \<in> set r" by blast
    show ?thesis
    proof (cases "touches p r")
      case True
      from in_merged [OF r(1) True r(2)] in_merged [OF r(1) True r(3)] merged_in
      show ?thesis by blast
    next
      case nt: False
      from kept_in [OF r(1) nt] r(2,3) show ?thesis by blast
    qed
  qed
  show ?thesis unfolding well_labelled_def
  proof (intro conjI ballI impI)
    fix r assume "r \<in> set (add_pixel p regions)"
    then show "connected_region (set r)" by (rule c1)
  next
    fix r r' assume "r \<in> set (add_pixel p regions)" "r' \<in> set (add_pixel p regions)"
      "set r \<inter> set r' \<noteq> {}"
    then show "r = r'" by (rule c2)
  next
    fix a b assume "a \<in> \<Union> (set ` set (add_pixel p regions))"
      "b \<in> \<Union> (set ` set (add_pixel p regions))" "neighbours a b"
    then show "\<exists>r \<in> set (add_pixel p regions). a \<in> set r \<and> b \<in> set r" by (rule c3)
  qed
qed

lemma well_labelled_foldl:
  "well_labelled regions \<Longrightarrow> well_labelled (foldl (\<lambda>regions p. add_pixel p regions) regions pixels)"
  by (induction pixels arbitrary: regions) (simp_all add: well_labelled_add_pixel)


lemma well_labelled_label: "well_labelled (label pixels)"
  unfolding label_def by (rule well_labelled_foldl) (simp add: well_labelled_def)


lemma label_pixels: "\<Union> (set ` set (label pixels)) = set pixels"
  using foldl_add_pixel [of "[]" pixels] by (simp add: label_def)


lemma well_labelled_share:
  assumes "well_labelled regions" and "a \<in> \<Union> (set ` set regions)"
    and "b \<in> \<Union> (set ` set regions)" and "neighbours a b"
  shows "\<exists>r \<in> set regions. a \<in> set r \<and> b \<in> set r"
proof -
  from assms(1) [unfolded well_labelled_def]
  have h: "\<forall>a \<in> \<Union> (set ` set regions). \<forall>b \<in> \<Union> (set ` set regions).
        neighbours a b \<longrightarrow> (\<exists>r \<in> set regions. a \<in> set r \<and> b \<in> set r)"
    by (elim conjE)
  from bspec [OF bspec [OF h assms(2)] assms(3)] assms(4) show ?thesis by simp
qed

lemma well_labelled_unique:
  assumes "well_labelled regions" and "r \<in> set regions" and "r' \<in> set regions"
    and "x \<in> set r" and "x \<in> set r'"
  shows "r = r'"
proof -
  from assms(1) [unfolded well_labelled_def]
  have h: "\<forall>r \<in> set regions. \<forall>r' \<in> set regions. set r \<inter> set r' \<noteq> {} \<longrightarrow> r = r'"
    by (elim conjE)
  have "set r \<inter> set r' \<noteq> {}" using assms(4,5) by blast
  with bspec [OF bspec [OF h assms(2)] assms(3)] show ?thesis by simp
qed

lemma well_labelled_connected:
  assumes "well_labelled regions" and "r \<in> set regions"
  shows "connected_region (set r)"
proof -
  from assms(1) [unfolded well_labelled_def]
  have h: "\<forall>r \<in> set regions. connected_region (set r)"
    by (elim conjE)
  from bspec [OF h assms(2)] show ?thesis .
qed

lemma same_region_along_path:
  assumes wl: "well_labelled regions" and sub: "S \<subseteq> \<Union> (set ` set regions)"
    and path: "(a, b) \<in> (adjacency S)\<^sup>*" and r: "r \<in> set regions" "a \<in> set r"
  shows "b \<in> set r"
  using path
proof (induction rule: rtrancl_induct)
  case base
  show ?case by (rule r(2))
next
  case (step y z)
  from step.hyps(2) have yz: "y \<in> S" "z \<in> S" "neighbours y z"
    by (simp_all add: adjacency_def)
  have "y \<in> \<Union> (set ` set regions)" "z \<in> \<Union> (set ` set regions)"
    using subsetD [OF sub yz(1)] subsetD [OF sub yz(2)] by this+
  from well_labelled_share [OF wl this yz(3)] obtain r' where
    r': "r' \<in> set regions" "y \<in> set r'" "z \<in> set r'" by blast
  from well_labelled_unique [OF wl r'(1) r(1) r'(2) step.IH] have "r' = r" .
  with r'(3) show ?case by simp
qed

lemma mask_pixels_mono:
  assumes "t1 \<le> t2"
  shows "set (mask_pixels change_map t2) \<subseteq> set (mask_pixels change_map t1)"
  using assms by (auto simp: mask_pixels_def)


lemma regions_covered:
  assumes "t1 \<le> t2"
  shows "\<forall>r2 \<in> set (label (mask_pixels change_map t2)).
           \<exists>r1 \<in> set (label (mask_pixels change_map t1)). set r2 \<subseteq> set r1"
proof
  fix r2
  assume r2: "r2 \<in> set (label (mask_pixels change_map t2))"
  let ?L1 = "label (mask_pixels change_map t1)"
  from label_regions [OF r2] have ne: "r2 \<noteq> []" and in2: "set r2 \<subseteq> set (mask_pixels change_map t2)"
    by simp_all
  have sub: "set r2 \<subseteq> \<Union> (set ` set ?L1)"
    using in2 mask_pixels_mono [OF assms] by (simp add: label_pixels) blast
  from ne obtain a where a: "a \<in> set r2" by (cases r2) auto
  with sub obtain r1 where r1: "r1 \<in> set ?L1" "a \<in> set r1" by blast
  have conn: "connected_region (set r2)"
    by (rule well_labelled_connected [OF well_labelled_label r2])
  have "set r2 \<subseteq> set r1"
  proof
    fix b
    assume "b \<in> set r2"
    with conn a have "(a, b) \<in> (adjacency (set r2))\<^sup>*" unfolding connected_region_def by blast
    from same_region_along_path [OF well_labelled_label sub this r1] show "b \<in> set r1" .
  qed
  with r1(1) show "\<exists>r1 \<in> set ?L1. set r2 \<subseteq> set r1" by blast
qed

lemma length_concat_partition:
  "length (concat (filter P xs)) + length (concat (filter (\<lambda>x. \<not> P x) xs)) = length (concat xs)"
  by (induction xs) auto

lemma length_concat_add_pixel:
  "length (concat (add_pixel p regions)) = Suc (length (concat regions))"
proof (induction regions)
  case Nil
  show ?case by simp
next
  case (Cons region regions)
  show ?case
  proof (cases "touches p region")
    case True
    with length_concat_partition [of "touches p" regions] show ?thesis by simp
  next
    case False
    with Cons.IH show ?thesis by simp
  qed
qed

lemma length_concat_foldl:
  "length (concat (foldl (\<lambda>regions p. add_pixel p regions) regions pixels)) =
   length (concat regions) + length pixels"
  by (induction pixels arbitrary: regions) (simp_all add: length_concat_add_pixel)

lemma distinct_concat_label:
  assumes "distinct pixels"
  shows "distinct (concat (label pixels))"
proof -
  have "length (concat (label pixels)) = length pixels"
    using length_concat_foldl [of "[]" pixels] by (simp add: label_def)
  moreover have "set (concat (label pixels)) = set pixels"
    using label_pixels [of pixels] by simp
  moreover have "card (set pixels) = length pixels"
    using assms by (rule distinct_card)
  ultimately have "card (set (concat (label pixels))) = length (concat (label pixels))"
    by simp
  then show ?thesis by (rule card_distinct)
qed

lemma distinct_in_concat:
  assumes "distinct (concat xss)" and "xs \<in> set xss"
  shows "distinct xs"
  using assms by (induction xss) auto

lemma distinct_rows:
  assumes "distinct rs" and "\<forall>r. distinct (g r)"
  shows "distinct (concat (map (\<lambda>r. map (\<lambda>c. (r, c)) (g r)) rs))"
  using assms
proof (induction rs)
  case Nil
  show ?case by simp
next
  case (Cons r rs)
  have "distinct (map (\<lambda>c. (r, c)) (g r))"
    using Cons.prems(2) by (simp add: distinct_map inj_on_def)
  moreover have "set (map (\<lambda>c. (r, c)) (g r)) \<inter>
                 set (concat (map (\<lambda>r. map (\<lambda>c. (r, c)) (g r)) rs)) = {}"
    using Cons.prems(1) by auto
  ultimately show ?case using Cons by simp
qed

lemma distinct_mask_pixels: "distinct (mask_pixels change_map t)"
  unfolding mask_pixels_def by (rule distinct_rows) simp_all

lemma label_region_distinct:
  assumes "region \<in> set (label (mask_pixels change_map t))"
  shows "distinct region"
  by (rule distinct_in_concat [OF distinct_concat_label [OF distinct_mask_pixels] assms])

lemma length_le_of_subset:
  assumes "distinct xs" and "set xs \<subseteq> set ys"
  shows "length xs \<le> length ys"
proof -
  have "length xs = card (set xs)" using assms(1) by (simp add: distinct_card)
  also have "\<dots> \<le> card (set ys)" using assms(2) by (simp add: card_mono)
  also have "\<dots> \<le> length ys" by (rule card_length)
  finally show ?thesis .
qed

text \<open>
  C5, amended: for thresholds \<open>t1 \<le> t2\<close>, every region labelled at \<open>t2\<close> lies inside
  one region labelled at \<open>t1\<close>, which has at least as many pixels. A lower threshold
  loses no changed pixel; it can merge regions, so the number of detections can go down.
\<close>

theorem lower_threshold_covers_regions:
  assumes "t1 \<le> t2"
  shows "\<forall>r2 \<in> set (label (mask_pixels change_map t2)).
           \<exists>r1 \<in> set (label (mask_pixels change_map t1)).
             set r2 \<subseteq> set r1 \<and> length r2 \<le> length r1"
proof
  fix r2
  assume r2: "r2 \<in> set (label (mask_pixels change_map t2))"
  with regions_covered [OF assms] obtain r1 where
    r1: "r1 \<in> set (label (mask_pixels change_map t1))" "set r2 \<subseteq> set r1" by blast
  from length_le_of_subset [OF label_region_distinct [OF r2] r1(2)] r1
  show "\<exists>r1 \<in> set (label (mask_pixels change_map t1)). set r2 \<subseteq> set r1 \<and> length r2 \<le> length r1"
    by blast
qed

theorem lower_threshold_covers_regions_witness:
  "(1 / 2 :: real) \<le> 7 / 10 \<and>
   label (mask_pixels strip_map (7 / 10)) = [[(0, 0)], [(0, 2)]] \<and>
   list_all (\<lambda>r2. list_ex (\<lambda>r1. set r2 \<subseteq> set r1 \<and> length r2 \<le> length r1)
                          (label (mask_pixels strip_map (1 / 2))))
            (label (mask_pixels strip_map (7 / 10)))"
proof -
  have le: "(1 / 2 :: real) \<le> 7 / 10" by simp
  have regions: "label (mask_pixels strip_map (7 / 10)) = [[(0, 0)], [(0, 2)]]" by code_simp
  from lower_threshold_covers_regions [OF le, of strip_map] le regions
  show ?thesis by (simp add: list_all_iff list_ex_iff)
qed

lemma strip_map_low:
  "length (detections
     (postprocess_results np_mean pixel_shapes pixel_ring_area strip_map ten_metre (1 / 2) 25)) = 1"
  by code_simp

lemma strip_map_high:
  "length (detections
     (postprocess_results np_mean pixel_shapes pixel_ring_area strip_map ten_metre (7 / 10) 25)) = 2"
  by code_simp

text \<open>
  C5, as the claim states it: at the lower threshold at least as many detections. On the
  one-row map 0.9, 0.6, 0.9 the threshold 0.7 gives two detections and the threshold 0.5
  joins them into one.
\<close>

theorem detection_count_counterexample:
  "(1 / 2 :: real) < 7 / 10 \<and>
   \<not> length (detections (postprocess_results float64_mean pixel_shapes pixel_ring_area
                 strip_map ten_metre (7 / 10) 25))
     \<le> length (detections (postprocess_results float64_mean pixel_shapes pixel_ring_area
                 strip_map ten_metre (1 / 2) 25))"
  by (simp add: strip_map_low strip_map_high)

theorem detections_reach_min_area_witness:
  "length (detections (postprocess_results float64_mean pixel_shapes pixel_ring_area
             strip_map ten_metre (7 / 10) 25)) = 2 \<and>
   list_all (\<lambda>d. 25 \<le> area_sqm d)
     (detections (postprocess_results float64_mean pixel_shapes pixel_ring_area
        strip_map ten_metre (7 / 10) 25)) \<and>
   real (length [(0 :: nat, 0 :: nat)]) * pixel_area ten_metre < 250 \<and>
   region_detection float64_mean pixel_shapes pixel_ring_area strip_map ten_metre 250 [(0, 0)]
     = None"
proof -
  have small: "real (length [(0 :: nat, 0 :: nat)]) * pixel_area ten_metre < 250"
    by (simp add: pixel_area_def ten_metre_def)
  from detections_reach_min_area
         [of float64_mean pixel_shapes pixel_ring_area strip_map ten_metre "7 / 10" 25]
  have "list_all (\<lambda>d. 25 \<le> area_sqm d)
     (detections (postprocess_results float64_mean pixel_shapes pixel_ring_area
        strip_map ten_metre (7 / 10) 25))"
    by (simp add: list_all_iff)
  moreover
  from detections_reach_min_area
         [of float64_mean pixel_shapes pixel_ring_area strip_map ten_metre "7 / 10" 250] small
  have "region_detection float64_mean pixel_shapes pixel_ring_area strip_map ten_metre 250
          [(0, 0)] = None"
    by blast
  ultimately show ?thesis using small strip_map_high by simp
qed

lemma exponent_from_numeral:
  "exponent_from (numeral k) a e =
     (if 2 \<le> a then exponent_from (pred_numeral k) (a / 2) (e + 1)
      else if a < 1 then exponent_from (pred_numeral k) (a * 2) (e - 1)
      else e)"
  by (simp add: numeral_eq_Suc)

lemma tight_mean: "float64_mean [just_above, just_above, just_above] = tight_threshold"
  by (simp add: float64_mean_def round_float64_def exponent_from_numeral pow2_def
      round_half_even_def just_above_def tight_threshold_def Let_def)

lemma tight_scores:
  "map confidence_score (detections
     (postprocess_results np_mean pixel_shapes pixel_ring_area tight_map ten_metre
        tight_threshold 25)) = [np_mean [just_above, just_above, just_above]]"
  by code_simp

text \<open>
  C9, as the claim states it: a score strictly above the threshold. In double precision
  it fails: three pixels hold 0.0865, the threshold is the double just below, all three
  pixels pass the mask, and their mean rounds down to the threshold itself.
\<close>

theorem confidence_score_counterexample:
  "tight_threshold < just_above \<and>
   map confidence_score (detections
     (postprocess_results float64_mean pixel_shapes pixel_ring_area tight_map ten_metre
        tight_threshold 25)) = [tight_threshold] \<and>
   \<not> tight_threshold < float64_mean [just_above, just_above, just_above]"
  by (simp add: tight_scores tight_mean) (simp add: tight_threshold_def just_above_def)

lemma dyadic_mean: "float64_mean [3 / 4, 5 / 8, 3 / 4] = 6380099472108203 / 2 ^ 53"
  by (simp add: float64_mean_def round_float64_def exponent_from_numeral pow2_def
      round_half_even_def Let_def)

lemma dyadic_regions: "label (mask_pixels dyadic_map (1 / 2)) = [[(0, 0), (0, 1), (0, 2)]]"
  by code_simp

lemma dyadic_values: "region_values dyadic_map [(0, 0), (0, 1), (0, 2)] = [3 / 4, 5 / 8, 3 / 4]"
  by code_simp

lemma dyadic_count:
  "length (detections
     (postprocess_results np_mean pixel_shapes pixel_ring_area dyadic_map ten_metre (1 / 2) 25)) = 1"
  by code_simp

theorem confidence_is_mean_above_threshold_witness:
  "length (detections (postprocess_results float64_mean pixel_shapes pixel_ring_area
             dyadic_map ten_metre (1 / 2) 25)) = 1 \<and>
   Min (set (region_values dyadic_map [(0, 0), (0, 1), (0, 2)]))
     \<le> float64_mean (region_values dyadic_map [(0, 0), (0, 1), (0, 2)]) \<and>
   list_all (\<lambda>d. 1 / 2 < confidence_score d \<and>
                 confidence_score d = float64_mean [3 / 4, 5 / 8, 3 / 4])
     (detections (postprocess_results float64_mean pixel_shapes pixel_ring_area
        dyadic_map ten_metre (1 / 2) 25))"
proof -
  have least: "Min (set (region_values dyadic_map [(0, 0), (0, 1), (0, 2)]))
     \<le> float64_mean (region_values dyadic_map [(0, 0), (0, 1), (0, 2)])"
    by (simp only: dyadic_values dyadic_mean) simp
  have "1 / 2 < confidence_score d \<and> confidence_score d = float64_mean [3 / 4, 5 / 8, 3 / 4]"
    if "d \<in> set (detections (postprocess_results float64_mean pixel_shapes pixel_ring_area
             dyadic_map ten_metre (1 / 2) 25))" for d
  proof -
    from confidence_is_mean_above_threshold
           [of float64_mean pixel_shapes pixel_ring_area dyadic_map ten_metre "1 / 2" 25] that
    obtain region where
      r: "region \<in> set (label (mask_pixels dyadic_map (1 / 2)))" and
      score: "confidence_score d = float64_mean (region_values dyadic_map region)" and
      strict: "Min (set (region_values dyadic_map region))
                 \<le> float64_mean (region_values dyadic_map region)
               \<longrightarrow> 1 / 2 < confidence_score d"
      by blast
    from r have "region \<in> set [[(0, 0), (0, 1), (0, 2)]]" by (simp only: dyadic_regions)
    then have region: "region = [(0, 0), (0, 1), (0, 2)]" by simp
    from strict least have "1 / 2 < confidence_score d" unfolding region by (rule mp)
    moreover from score have "confidence_score d = float64_mean [3 / 4, 5 / 8, 3 / 4]"
      unfolding region by (simp only: dyadic_values)
    ultimately show ?thesis by (rule conjI)
  qed
  then have "\<forall>d \<in> set (detections (postprocess_results float64_mean pixel_shapes pixel_ring_area
             dyadic_map ten_metre (1 / 2) 25)).
          1 / 2 < confidence_score d \<and> confidence_score d = float64_mean [3 / 4, 5 / 8, 3 / 4]"
    by blast
  then have every: "list_all (\<lambda>d. 1 / 2 < confidence_score d \<and>
                 confidence_score d = float64_mean [3 / 4, 5 / 8, 3 / 4])
     (detections (postprocess_results float64_mean pixel_shapes pixel_ring_area
        dyadic_map ten_metre (1 / 2) 25))"
    unfolding list_all_iff .
  from conjI [OF dyadic_count [of float64_mean] conjI [OF least every]] show ?thesis .
qed

section \<open>Properties of the fallback change map\<close>

lemma fallback_reads_shape_only:
  assumes "shape b1 = shape b2"
  shows "simple_difference_detection g b1 a1 = simple_difference_detection g b2 a2"
  using assms by (simp add: simple_difference_detection_def)

lemma quiet_pixel:
  "pixel_at (fallback_change_map quiet_generator small_scene small_scene) 0 0 = Inr (3 / 5)"
  by code_simp

lemma other_pixel:
  "pixel_at (fallback_change_map other_generator small_scene small_scene) 0 0 = Inr (31 / 40)"
  by code_simp

text \<open>
  C1. The claim is that the fallback gives the same probability raster on every run with
  the same inputs. The fallback of the backend draws the raster from the unseeded
  generator: on the same pair of rasters, two generator states give two different change
  maps (0.6 and 0.775 at the first pixel).
\<close>

theorem fallback_depends_on_generator:
  "pixel_at (fallback_change_map quiet_generator small_scene small_scene) 0 0 = Inr (3 / 5) \<and>
   pixel_at (fallback_change_map other_generator small_scene small_scene) 0 0 = Inr (31 / 40) \<and>
   fallback_change_map quiet_generator small_scene small_scene \<noteq>
   fallback_change_map other_generator small_scene small_scene"
proof -
  have "fallback_change_map quiet_generator small_scene small_scene \<noteq>
        fallback_change_map other_generator small_scene small_scene"
  proof
    assume "fallback_change_map quiet_generator small_scene small_scene =
            fallback_change_map other_generator small_scene small_scene"
    then have "pixel_at (fallback_change_map quiet_generator small_scene small_scene) 0 0 =
               pixel_at (fallback_change_map other_generator small_scene small_scene) 0 0"
      by simp
    then show False by (simp add: quiet_pixel other_pixel)
  qed
  then show ?thesis by (simp add: quiet_pixel other_pixel)
qed

end
